theory Spec2Isabelle
  imports Complex_Main
begin

section \<open>JavaScript values\<close>

text \<open>
  The values that travel through \<open>src/App.tsx\<close>: the payload type \<open>T\<close> of
  \<open>GraphQLResponse<T>\<close> is generic, so a payload is any JavaScript value that JSON
  decoding or a property read can produce. A number is an IEEE double: a finite double is
  represented by its exact rational value (\<open>+0\<close> and \<open>-0\<close> are both \<open>Finite 0\<close>), and
  the three special doubles are constructors of their own. No arithmetic is done on
  numbers here: only the test against zero of JavaScript's truthiness reads them.
  An object is the list of its own properties, keys distinct.
\<close>

datatype js_number = Finite rat | PosInfinity | NegInfinity | NaN

datatype jsval =
    JUndefined
  | JNull
  | JBool bool
  | JNum js_number
  | JStr string
  | JArr "jsval list"
  | JObj "(string \<times> jsval) list"

text \<open>
  JavaScript's \<open>ToBoolean\<close>, which \<open>!payload.data\<close> applies: \<open>undefined\<close>,
  \<open>null\<close>, \<open>false\<close>, zero, \<open>NaN\<close> and the empty string are falsy, everything else
  (every object and every array, also the empty ones) is truthy.
\<close>

fun truthy :: "jsval \<Rightarrow> bool" where
  "truthy JUndefined = False"
| "truthy JNull = False"
| "truthy (JBool b) = b"
| "truthy (JNum n) = (n \<noteq> Finite 0 \<and> n \<noteq> NaN)"
| "truthy (JStr s) = (s \<noteq> [])"
| "truthy (JArr xs) = True"
| "truthy (JObj kvs) = True"

text \<open>
  A thrown value: \<open>catch (e: unknown)\<close> admits any value. What matters of it is what
  the \<open>catch\<close> clause of \<open>run\<close> can observe.
  \<^item> \<open>Error_instance m\<close> is an instance of \<open>Error\<close> whose \<open>message\<close> is \<open>m\<close> (a
    string, by the type of \<open>Error.message\<close>).
  \<^item> \<open>Non_error mp conv\<close> is any other value. \<open>mp\<close> is its own \<open>message\<close> property
    when it has one that is a string (a plain object \<^verbatim>\<open>{message: "boom"}\<close> has
    \<open>Some ''boom''\<close>). \<open>conv\<close> is what the platform's conversion \<open>String(e)\<close> does
    with it: \<open>Inr str\<close> when it returns the string \<open>str\<close>, and \<open>Inl e'\<close> when it
    throws the value \<open>e'\<close>, as it does for a value with no primitive conversion
    (\<^verbatim>\<open>Object.create(null)\<close>, an object whose \<open>toString\<close> throws).
\<close>

datatype thrown =
    Error_instance string
  | Non_error "string option" "thrown + string"

text \<open>
  What \<open>await p\<close> observes of a promise \<open>p\<close>: it is fulfilled with a value, it is
  rejected with a thrown value (a synchronous \<open>throw\<close> inside the awaited call is
  observed by the enclosing \<open>try\<close> in the same way), or it never settles.
\<close>

datatype 'a settled = Resolved 'a | Rejected thrown | Pending

section \<open>The response envelope\<close>

text \<open>
  \<^verbatim>\<open>type GraphQLResponse<T> = { data?: T; errors?: Array<{ message: string }> }\<close>
  An optional field that is absent reads as \<open>undefined\<close>; it is \<open>None\<close> here.
\<close>

record gql_error =
  message :: string

record GraphQLResponse =
  data :: "jsval option"
  errors :: "gql_error list option"

section \<open>Component state and the calls that change it\<close>

text \<open>
  The state hooks of \<open>App\<close> that \<open>run\<close> and its callbacks write: \<open>loading\<close>,
  \<open>error\<close> and the five result slots. The form fields (\<open>customerId\<close>, \<open>category\<close>
  and the others) are written by the input handlers only and are left out.
\<close>

record app_state =
  loading :: bool
  error :: string
  customerResult :: jsval
  catalogResult :: jsval
  quoteResult :: jsval
  placeOrderResult :: jsval
  scheduleReturnResult :: jsval

text \<open>The initial values given to \<open>useState\<close>.\<close>

definition initial_state :: app_state where
  "initial_state =
     \<lparr>loading = False, error = [], customerResult = JNull, catalogResult = JArr [],
      quoteResult = JNull, placeOrderResult = JNull, scheduleReturnResult = JNull\<rparr>"

text \<open>The setters of the five result slots.\<close>

datatype slot_write =
    SetCustomerResult jsval
  | SetCatalogResult jsval
  | SetQuoteResult jsval
  | SetPlaceOrderResult jsval
  | SetScheduleReturnResult jsval

text \<open>
  The calls \<open>run\<close> makes, in the order it makes them: the two setters of its own, the
  invocation of \<open>task\<close>, the invocation of \<open>onSuccess\<close> with its argument, and the
  slot setters that the callback calls while it runs.
\<close>

datatype event =
    SetLoading bool
  | SetError string
  | InvokeTask
  | InvokeOnSuccess jsval
  | Slot slot_write

fun apply_slot :: "slot_write \<Rightarrow> app_state \<Rightarrow> app_state" where
  "apply_slot (SetCustomerResult v) s = s\<lparr>customerResult := v\<rparr>"
| "apply_slot (SetCatalogResult v) s = s\<lparr>catalogResult := v\<rparr>"
| "apply_slot (SetQuoteResult v) s = s\<lparr>quoteResult := v\<rparr>"
| "apply_slot (SetPlaceOrderResult v) s = s\<lparr>placeOrderResult := v\<rparr>"
| "apply_slot (SetScheduleReturnResult v) s = s\<lparr>scheduleReturnResult := v\<rparr>"

fun apply_event :: "event \<Rightarrow> app_state \<Rightarrow> app_state" where
  "apply_event (SetLoading b) s = s\<lparr>loading := b\<rparr>"
| "apply_event (SetError m) s = s\<lparr>error := m\<rparr>"
| "apply_event InvokeTask s = s"
| "apply_event (InvokeOnSuccess d) s = s"
| "apply_event (Slot w) s = apply_slot w s"

text \<open>The state after a sequence of calls, applied in order, from the state \<open>s\<close>.\<close>

definition apply_events :: "event list \<Rightarrow> app_state \<Rightarrow> app_state" where
  "apply_events evs s = foldl (\<lambda>st e. apply_event e st) s evs"

section \<open>The orchestrator \<open>run\<close>\<close>

text \<open>\<open>Array.prototype.join\<close> on an array of strings.\<close>

fun join :: "string \<Rightarrow> string list \<Rightarrow> string" where
  "join sep [] = []"
| "join sep [x] = x"
| "join sep (x # y # ys) = x @ sep @ join sep (y # ys)"

text \<open>
  A callback \<open>onSuccess: (data: T) => void\<close>: given the payload, the slot setters it
  calls, in order, and the value it throws, if it throws.
\<close>

type_synonym callback = "jsval \<Rightarrow> slot_write list \<times> thrown option"

text \<open>
  How a block of statements ends: it runs to its end, it leaves the function by the
  \<open>return\<close> of line 88 (after the errors were reported) or by the \<open>return\<close> of line
  93 (after the missing data was reported), it throws, or it is suspended at an
  \<open>await\<close> for ever.
\<close>

datatype completion = Normal | Return_errors | Return_no_data | Throw thrown | Suspended

text \<open>
  The \<open>try\<close> block of \<open>run\<close> (lines 85 to 96). The argument \<open>task\<close> is what
  \<open>await task()\<close> observes. The pattern \<open>Some (e # es)\<close> is the test
  \<^verbatim>\<open>payload.errors && payload.errors.length > 0\<close>; the test \<^verbatim>\<open>!payload.data\<close> holds of
  an absent field, which reads as \<open>undefined\<close>, and of a field whose value is falsy.
\<close>

definition try_block :: "GraphQLResponse settled \<Rightarrow> callback \<Rightarrow> event list \<times> completion" where
  "try_block task onSuccess =
     (case task of
        Pending \<Rightarrow> ([InvokeTask], Suspended)
      | Rejected e \<Rightarrow> ([InvokeTask], Throw e)
      | Resolved payload \<Rightarrow>
          (case errors payload of
             Some (e # es) \<Rightarrow>
               ([InvokeTask, SetError (join [CHR 0x0A] (map message (e # es)))], Return_errors)
           | _ \<Rightarrow>
               (case data payload of
                  None \<Rightarrow>
                    ([InvokeTask, SetError ''No data returned by GraphQL API''], Return_no_data)
                | Some d \<Rightarrow>
                    if \<not> truthy d
                    then ([InvokeTask, SetError ''No data returned by GraphQL API''],
                          Return_no_data)
                    else (case onSuccess d of
                            (writes, None) \<Rightarrow>
                              (InvokeTask # InvokeOnSuccess d # map Slot writes, Normal)
                          | (writes, Some e) \<Rightarrow>
                              (InvokeTask # InvokeOnSuccess d # map Slot writes, Throw e)))))"

text \<open>
  The expression of line 98,
  \<^verbatim>\<open>e instanceof Error ? e.message : String(e)\<close>:
  it yields a string, or \<open>String(e)\<close> throws. A \<open>message\<close> property of a value that
  is not an \<open>Error\<close> is not read.
\<close>

definition catch_message :: "thrown \<Rightarrow> thrown + string" where
  "catch_message e = (case e of Error_instance m \<Rightarrow> Inr m | Non_error mp conv \<Rightarrow> conv)"

text \<open>
  The \<open>catch\<close> clause (lines 97 to 99): it runs only when the \<open>try\<close> block threw.
  When line 98 throws, \<open>setError\<close> is not called and the clause ends by that throw.
\<close>

definition catch_clause :: "completion \<Rightarrow> event list \<times> completion" where
  "catch_clause c =
     (case c of
        Throw e \<Rightarrow>
          (case catch_message e of
             Inr msg \<Rightarrow> ([SetError msg], Normal)
           | Inl e' \<Rightarrow> ([], Throw e'))
      | _ \<Rightarrow> ([], c))"

text \<open>
  The \<open>finally\<close> clause (lines 100 to 102): it runs whenever control leaves the
  \<open>try\<close> statement, which a suspended \<open>await\<close> never does.
\<close>

definition finally_clause :: "completion \<Rightarrow> event list" where
  "finally_clause c = (case c of Suspended \<Rightarrow> [] | _ \<Rightarrow> [SetLoading False])"

text \<open>
  \<open>run\<close> (lines 78 to 103): the calls it makes, in order, and how it ends. It ends by
  \<open>Throw\<close> when an exception leaves it, that is, when the promise it returns is
  rejected.
\<close>

definition run :: "GraphQLResponse settled \<Rightarrow> callback \<Rightarrow> event list \<times> completion" where
  "run task onSuccess =
     (let (evs1, c1) = try_block task onSuccess;
          (evs2, c2) = catch_clause c1;
          evs3 = finally_clause c2
      in ([SetLoading True, SetError []] @ evs1 @ evs2 @ evs3, c2))"

text \<open>The events of a trace that are invocations of \<open>onSuccess\<close>.\<close>

fun is_onSuccess :: "event \<Rightarrow> bool" where
  "is_onSuccess (InvokeOnSuccess d) = True"
| "is_onSuccess _ = False"

fun is_slot :: "event \<Rightarrow> bool" where
  "is_slot (Slot w) = True"
| "is_slot _ = False"

section \<open>The five call sites\<close>

text \<open>
  A property read \<open>v.k\<close>. Reading a property of \<open>undefined\<close> or \<open>null\<close> throws a
  \<open>TypeError\<close> (the message is the one of V8); an object yields its own property or
  \<open>undefined\<close>; a boolean, a number, a string or an array has no property of the names
  read in \<open>App.tsx\<close> (\<open>customer\<close>, \<open>catalogItems\<close>, \<open>quotePrice\<close>,
  \<open>placeOrder\<close>, \<open>scheduleReturn\<close>, none of them a name the prototypes define), so
  the read yields \<open>undefined\<close>.
\<close>

definition cannot_read :: "string \<Rightarrow> string \<Rightarrow> thrown" where
  "cannot_read what k =
     Error_instance (''Cannot read properties of '' @ what @ '' (reading ''
                     @ [CHR 0x27] @ k @ [CHR 0x27] @ '')'')"

fun get_prop :: "jsval \<Rightarrow> string \<Rightarrow> thrown + jsval" where
  "get_prop JUndefined k = Inl (cannot_read ''undefined'' k)"
| "get_prop JNull k = Inl (cannot_read ''null'' k)"
| "get_prop (JObj kvs) k = Inr (case map_of kvs k of None \<Rightarrow> JUndefined | Some v \<Rightarrow> v)"
| "get_prop v k = Inr JUndefined"

text \<open>
  The callbacks passed to \<open>run\<close> at lines 134, 165, 196, 231 and 270, each of the form
  \<^verbatim>\<open>(data) => setCustomerResult(data.customer)\<close>.
\<close>

definition onSuccess_customer :: callback where
  "onSuccess_customer d =
     (case get_prop d ''customer'' of
        Inl e \<Rightarrow> ([], Some e) | Inr v \<Rightarrow> ([SetCustomerResult v], None))"

definition onSuccess_catalog :: callback where
  "onSuccess_catalog d =
     (case get_prop d ''catalogItems'' of
        Inl e \<Rightarrow> ([], Some e) | Inr v \<Rightarrow> ([SetCatalogResult v], None))"

definition onSuccess_quote :: callback where
  "onSuccess_quote d =
     (case get_prop d ''quotePrice'' of
        Inl e \<Rightarrow> ([], Some e) | Inr v \<Rightarrow> ([SetQuoteResult v], None))"

definition onSuccess_placeOrder :: callback where
  "onSuccess_placeOrder d =
     (case get_prop d ''placeOrder'' of
        Inl e \<Rightarrow> ([], Some e) | Inr v \<Rightarrow> ([SetPlaceOrderResult v], None))"

definition onSuccess_scheduleReturn :: callback where
  "onSuccess_scheduleReturn d =
     (case get_prop d ''scheduleReturn'' of
        Inl e \<Rightarrow> ([], Some e) | Inr v \<Rightarrow> ([SetScheduleReturnResult v], None))"

text \<open>The five operation kinds, each with its callback and its result slot.\<close>

datatype op_kind = Customer | Catalog | Quote | PlaceOrder | ScheduleReturn

fun onSuccess_of :: "op_kind \<Rightarrow> callback" where
  "onSuccess_of Customer = onSuccess_customer"
| "onSuccess_of Catalog = onSuccess_catalog"
| "onSuccess_of Quote = onSuccess_quote"
| "onSuccess_of PlaceOrder = onSuccess_placeOrder"
| "onSuccess_of ScheduleReturn = onSuccess_scheduleReturn"

fun slot_of :: "op_kind \<Rightarrow> app_state \<Rightarrow> jsval" where
  "slot_of Customer = customerResult"
| "slot_of Catalog = catalogResult"
| "slot_of Quote = quoteResult"
| "slot_of PlaceOrder = placeOrderResult"
| "slot_of ScheduleReturn = scheduleReturnResult"

section \<open>Outcomes\<close>

text \<open>
  The four branches of \<open>run\<close>, under the names the specification gives them, as a
  function of what \<open>await task()\<close> observes: the \<open>catch\<close> clause after a rejection,
  the first \<open>if\<close>, the second \<open>if\<close>, the call of \<open>onSuccess\<close>. A task that never
  settles leads to none of them.
\<close>

datatype outcome_kind = Success | ApplicationError | MissingData | TransportError

definition call_outcome :: "GraphQLResponse settled \<Rightarrow> outcome_kind option" where
  "call_outcome task =
     (case task of
        Pending \<Rightarrow> None
      | Rejected e \<Rightarrow> Some TransportError
      | Resolved payload \<Rightarrow>
          (case errors payload of
             Some (e # es) \<Rightarrow> Some ApplicationError
           | _ \<Rightarrow>
               (case data payload of
                  None \<Rightarrow> Some MissingData
                | Some d \<Rightarrow> if \<not> truthy d then Some MissingData else Some Success)))"

text \<open>
  The outcome read off what an invocation of \<open>run\<close> did: it is a success when
  \<open>onSuccess\<close> was invoked; otherwise the way \<open>run\<close> ended tells which branch it
  took: one of the two \<open>return\<close> statements, or, with neither, the \<open>catch\<close> clause
  after the task threw. An invocation that is suspended for ever has no outcome.
\<close>

definition observed_outcome :: "event list \<times> completion \<Rightarrow> outcome_kind option" where
  "observed_outcome r =
     (if filter is_onSuccess (fst r) \<noteq> [] then Some Success
      else (case snd r of
              Suspended \<Rightarrow> None
            | Return_errors \<Rightarrow> Some ApplicationError
            | Return_no_data \<Rightarrow> Some MissingData
            | _ \<Rightarrow> Some TransportError))"

text \<open>
  One invocation of \<open>run\<close> from the state \<open>s\<close>: the state once every call of the
  invocation has been applied, and the outcome read off the invocation.
\<close>

definition execute ::
  "GraphQLResponse settled \<Rightarrow> callback \<Rightarrow> app_state \<Rightarrow> app_state \<times> outcome_kind option" where
  "execute task onSuccess s =
     (apply_events (fst (run task onSuccess)) s, observed_outcome (run task onSuccess))"

text \<open>
  A callback that \<open>run\<close> accepts and that no call site of \<open>App.tsx\<close> passes:
  \<^verbatim>\<open>() => { throw e }\<close>. It calls no setter and throws \<open>e\<close>.
\<close>

definition callback_throwing :: "thrown \<Rightarrow> callback" where
  "callback_throwing e d = ([], Some e)"

section \<open>The transport call \<open>gqlRequest\<close>\<close>

text \<open>
  The argument of \<open>fetch\<close>, and of the response the one member \<open>gqlRequest\<close> uses:
  what awaiting \<open>response.json()\<close> observes. The status of the response is not read.
  The field \<open>http_method\<close> is the member \<^verbatim>\<open>method\<close> of the options object.
  The type \<open>'a\<close> is the type the caller gives the decoded body: the cast
  \<^verbatim>\<open>as Promise<GraphQLResponse<T>>\<close> checks nothing.
\<close>

record request =
  url :: string
  http_method :: string
  headers :: "(string \<times> string) list"
  body :: string

record 'a response =
  json :: "'a settled"

text \<open>
  \<open>gqlRequest\<close> (lines 41 to 52). \<open>JSON.stringify\<close> and \<open>fetch\<close> are the platform's
  and are parameters; \<open>variables\<close> is the list of the properties of the variables
  object. On the values of \<open>jsval\<close> (trees, without \<open>BigInt\<close>) \<open>JSON.stringify\<close>
  returns a string and does not throw. The result is the list of the requests issued
  and what awaiting the returned promise observes.
\<close>

definition gqlRequest ::
  "(jsval \<Rightarrow> string) \<Rightarrow> (request \<Rightarrow> 'a response settled) \<Rightarrow> string \<Rightarrow> (string \<times> jsval) list
     \<Rightarrow> request list \<times> 'a settled" where
  "gqlRequest stringify fetch query variables =
     (let req = \<lparr>url = ''/graphql'', http_method = ''POST'',
                 headers = [(''content-type'', ''application/json'')],
                 body = stringify (JObj [(''query'', JStr query), (''variables'', JObj variables)])\<rparr>
      in ([req],
          case fetch req of
            Resolved resp \<Rightarrow> json resp
          | Rejected e \<Rightarrow> Rejected e
          | Pending \<Rightarrow> Pending))"

section \<open>Applying a sequence of calls\<close>

lemma apply_events_Nil: "apply_events [] s = s"
  by (simp add: apply_events_def)

lemma apply_events_Cons: "apply_events (e # evs) s = apply_events evs (apply_event e s)"
  by (simp add: apply_events_def)

lemma apply_events_append: "apply_events (xs @ ys) s = apply_events ys (apply_events xs s)"
  by (simp add: apply_events_def)

lemma apply_slot_loading: "loading (apply_slot w s) = loading s"
  by (cases w) simp_all

lemma apply_slot_error: "error (apply_slot w s) = error s"
  by (cases w) simp_all

lemma slots_keep_loading: "loading (apply_events (map Slot ws) s) = loading s"
  by (induction ws arbitrary: s) (simp_all add: apply_events_Nil apply_events_Cons apply_slot_loading)

lemma slots_keep_error: "error (apply_events (map Slot ws) s) = error s"
  by (induction ws arbitrary: s) (simp_all add: apply_events_Nil apply_events_Cons apply_slot_error)

lemma loading_update_eq:
  "((s1::app_state)\<lparr>loading := v\<rparr> = s2\<lparr>loading := v\<rparr>) = (error s1 = error s2 \<and> customerResult s1 = customerResult s2 \<and> catalogResult s1 = catalogResult s2 \<and> quoteResult s1 = quoteResult s2 \<and> placeOrderResult s1 = placeOrderResult s2 \<and> scheduleReturnResult s1 = scheduleReturnResult s2)"
  by (cases s1; cases s2) auto

lemma error_update_eq:
  "((s1::app_state)\<lparr>error := v\<rparr> = s2\<lparr>error := v\<rparr>) = (loading s1 = loading s2 \<and> customerResult s1 = customerResult s2 \<and> catalogResult s1 = catalogResult s2 \<and> quoteResult s1 = quoteResult s2 \<and> placeOrderResult s1 = placeOrderResult s2 \<and> scheduleReturnResult s1 = scheduleReturnResult s2)"
  by (cases s1; cases s2) auto

lemma customerResult_update_eq:
  "((s1::app_state)\<lparr>customerResult := v\<rparr> = s2\<lparr>customerResult := v\<rparr>) = (loading s1 = loading s2 \<and> error s1 = error s2 \<and> catalogResult s1 = catalogResult s2 \<and> quoteResult s1 = quoteResult s2 \<and> placeOrderResult s1 = placeOrderResult s2 \<and> scheduleReturnResult s1 = scheduleReturnResult s2)"
  by (cases s1; cases s2) auto

lemma catalogResult_update_eq:
  "((s1::app_state)\<lparr>catalogResult := v\<rparr> = s2\<lparr>catalogResult := v\<rparr>) = (loading s1 = loading s2 \<and> error s1 = error s2 \<and> customerResult s1 = customerResult s2 \<and> quoteResult s1 = quoteResult s2 \<and> placeOrderResult s1 = placeOrderResult s2 \<and> scheduleReturnResult s1 = scheduleReturnResult s2)"
  by (cases s1; cases s2) auto

lemma quoteResult_update_eq:
  "((s1::app_state)\<lparr>quoteResult := v\<rparr> = s2\<lparr>quoteResult := v\<rparr>) = (loading s1 = loading s2 \<and> error s1 = error s2 \<and> customerResult s1 = customerResult s2 \<and> catalogResult s1 = catalogResult s2 \<and> placeOrderResult s1 = placeOrderResult s2 \<and> scheduleReturnResult s1 = scheduleReturnResult s2)"
  by (cases s1; cases s2) auto

lemma placeOrderResult_update_eq:
  "((s1::app_state)\<lparr>placeOrderResult := v\<rparr> = s2\<lparr>placeOrderResult := v\<rparr>) = (loading s1 = loading s2 \<and> error s1 = error s2 \<and> customerResult s1 = customerResult s2 \<and> catalogResult s1 = catalogResult s2 \<and> quoteResult s1 = quoteResult s2 \<and> scheduleReturnResult s1 = scheduleReturnResult s2)"
  by (cases s1; cases s2) auto

lemma scheduleReturnResult_update_eq:
  "((s1::app_state)\<lparr>scheduleReturnResult := v\<rparr> = s2\<lparr>scheduleReturnResult := v\<rparr>) = (loading s1 = loading s2 \<and> error s1 = error s2 \<and> customerResult s1 = customerResult s2 \<and> catalogResult s1 = catalogResult s2 \<and> quoteResult s1 = quoteResult s2 \<and> placeOrderResult s1 = placeOrderResult s2)"
  by (cases s1; cases s2) auto

lemmas update_eqs =
  loading_update_eq error_update_eq customerResult_update_eq catalogResult_update_eq
  quoteResult_update_eq placeOrderResult_update_eq scheduleReturnResult_update_eq

lemma slot_congr:
  "apply_slot x s1 = apply_slot x s2 \<Longrightarrow>
   apply_slot x (apply_slot y s1) = apply_slot x (apply_slot y s2)"
  by (cases x; cases y) (simp_all add: update_eqs)

lemma slot_absorb: "apply_slot x (apply_slot x s) = apply_slot x s"
  by (cases x) simp_all

lemma step_congr:
  assumes h: "apply_event x s1 = apply_event x s2"
  shows "apply_event x (apply_event y s1) = apply_event x (apply_event y s2)"
proof (cases y)
  case y: (Slot w')
  show ?thesis
  proof (cases x)
    case (Slot w)
    with y h show ?thesis using slot_congr [of w s1 s2 w'] by simp
  next
    case (SetLoading b)
    with y h show ?thesis by (cases w') (simp_all add: update_eqs)
  next
    case (SetError m)
    with y h show ?thesis by (cases w') (simp_all add: update_eqs)
  qed (use h in \<open>simp_all add: y\<close>)
next
  case y: (SetLoading b')
  show ?thesis
  proof (cases x)
    case (Slot w)
    with y h show ?thesis by (cases w) (simp_all add: update_eqs)
  qed (use h in \<open>simp_all add: y update_eqs\<close>)
next
  case y: (SetError m')
  show ?thesis
  proof (cases x)
    case (Slot w)
    with y h show ?thesis by (cases w) (simp_all add: update_eqs)
  qed (use h in \<open>simp_all add: y update_eqs\<close>)
qed (use h in simp_all)

lemma step_absorb: "apply_event x (apply_event x s) = apply_event x s"
  by (cases x) (simp_all add: slot_absorb)

lemma events_congr:
  "apply_event x s1 = apply_event x s2 \<Longrightarrow>
   apply_event x (apply_events ys s1) = apply_event x (apply_events ys s2)"
proof (induction ys arbitrary: s1 s2)
  case Nil
  then show ?case by (simp add: apply_events_Nil)
next
  case (Cons y ys)
  from Cons.prems have "apply_event x (apply_event y s1) = apply_event x (apply_event y s2)"
    by (rule step_congr)
  then have "apply_event x (apply_events ys (apply_event y s1))
             = apply_event x (apply_events ys (apply_event y s2))"
    by (rule Cons.IH)
  then show ?case
    by (simp add: apply_events_Cons)
qed

lemma apply_events_idem: "apply_events evs (apply_events evs s) = apply_events evs s"
proof (induction evs arbitrary: s rule: rev_induct)
  case Nil
  show ?case by (simp add: apply_events_Nil)
next
  case (snoc x xs)
  have "apply_event x (apply_events xs (apply_event x (apply_events xs s)))
        = apply_event x (apply_events xs (apply_events xs s))"
    by (rule events_congr) (rule step_absorb)
  then show ?case
    by (simp add: apply_events_append apply_events_Cons apply_events_Nil snoc.IH)
qed


section \<open>The paths through \<open>run\<close>\<close>

lemma run_pending:
  "run Pending onSuccess = ([SetLoading True, SetError [], InvokeTask], Suspended)"
  by (simp add: run_def try_block_def catch_clause_def finally_clause_def)

text \<open>The \<open>catch\<close> clause after a throw: it sets the error text, or it throws.\<close>

lemma caught_cases:
  obtains (reported) msg where "catch_message e = Inr msg"
      and "catch_clause (Throw e) = ([SetError msg], Normal)"
  | (escaped) e' where "catch_message e = Inl e'"
      and "catch_clause (Throw e) = ([], Throw e')"
  by (cases "catch_message e") (simp_all add: catch_clause_def)

lemma caught_events:
  "fst (catch_clause (Throw e))
     = (case catch_message e of Inr msg \<Rightarrow> [SetError msg] | Inl e' \<Rightarrow> [])"
  by (cases rule: caught_cases [of e]) simp_all

lemma caught_completion:
  "snd (catch_clause (Throw e))
     = (case catch_message e of Inr msg \<Rightarrow> Normal | Inl e' \<Rightarrow> Throw e')"
  by (cases rule: caught_cases [of e]) simp_all

lemma caught_has_no_other_call:
  "filter is_onSuccess (fst (catch_clause (Throw e))) = []"
  "filter is_slot (fst (catch_clause (Throw e))) = []"
  "InvokeTask \<notin> set (fst (catch_clause (Throw e)))"
  "InvokeOnSuccess d \<notin> set (fst (catch_clause (Throw e)))"
  "SetLoading b \<notin> set (fst (catch_clause (Throw e)))"
  "Slot w \<notin> set (fst (catch_clause (Throw e)))"
  by (cases rule: caught_cases [of e]; simp)+

lemma caught_keeps_loading:
  "loading (apply_events (fst (catch_clause (Throw e))) s) = loading s"
  by (cases rule: caught_cases [of e]) (simp_all add: apply_events_def)

lemma finally_after_catch: "finally_clause (snd (catch_clause (Throw e))) = [SetLoading False]"
  by (cases rule: caught_cases [of e]) (simp_all add: finally_clause_def)

lemma run_rejected:
  "run (Rejected e) onSuccess =
     ([SetLoading True, SetError [], InvokeTask] @ fst (catch_clause (Throw e))
        @ [SetLoading False],
      snd (catch_clause (Throw e)))"
  by (simp add: run_def try_block_def split_def Let_def finally_after_catch)

lemma run_errors:
  "errors payload = Some (e # es) \<Longrightarrow>
   run (Resolved payload) onSuccess =
     ([SetLoading True, SetError [], InvokeTask,
       SetError (join [CHR 0x0A] (map message (e # es))), SetLoading False], Return_errors)"
  by (simp add: run_def try_block_def catch_clause_def finally_clause_def)

lemma run_no_data:
  assumes "errors payload = None \<or> errors payload = Some []"
    and "data payload = None \<or> (\<exists>d. data payload = Some d \<and> \<not> truthy d)"
  shows "run (Resolved payload) onSuccess =
     ([SetLoading True, SetError [], InvokeTask,
       SetError ''No data returned by GraphQL API'', SetLoading False], Return_no_data)"
  using assms
  by (auto simp add: run_def try_block_def catch_clause_def finally_clause_def)

lemma run_returned:
  assumes "errors payload = None \<or> errors payload = Some []"
    and "data payload = Some d" and "truthy d" and "onSuccess d = (writes, None)"
  shows "run (Resolved payload) onSuccess =
     ([SetLoading True, SetError [], InvokeTask, InvokeOnSuccess d] @ map Slot writes
        @ [SetLoading False], Normal)"
  using assms
  by (auto simp add: run_def try_block_def catch_clause_def finally_clause_def)

lemma run_threw:
  assumes "errors payload = None \<or> errors payload = Some []"
    and "data payload = Some d" and "truthy d" and "onSuccess d = (writes, Some e)"
  shows "run (Resolved payload) onSuccess =
     ([SetLoading True, SetError [], InvokeTask, InvokeOnSuccess d] @ map Slot writes
        @ fst (catch_clause (Throw e)) @ [SetLoading False],
      snd (catch_clause (Throw e)))"
  using assms
  by (auto simp add: run_def try_block_def split_def Let_def finally_after_catch)

text \<open>Every invocation follows one of the six paths.\<close>

lemma run_paths:
  obtains
    (pending) "task = Pending"
  | (rejected) e where "task = Rejected e"
  | (app_errors) payload e es where "task = Resolved payload" and "errors payload = Some (e # es)"
  | (no_data) payload where "task = Resolved payload"
      and "errors payload = None \<or> errors payload = Some []"
      and "data payload = None \<or> (\<exists>d. data payload = Some d \<and> \<not> truthy d)"
  | (returned) payload d writes where "task = Resolved payload"
      and "errors payload = None \<or> errors payload = Some []"
      and "data payload = Some d" and "truthy d" and "onSuccess d = (writes, None)"
  | (threw) payload d writes e where "task = Resolved payload"
      and "errors payload = None \<or> errors payload = Some []"
      and "data payload = Some d" and "truthy d" and "onSuccess d = (writes, Some e)"
proof (cases task)
  case (Resolved payload)
  show ?thesis
  proof (cases "errors payload")
    case None
    note errs = this
    show ?thesis
    proof (cases "data payload")
      case None
      with Resolved errs show ?thesis using no_data by simp
    next
      case (Some d)
      show ?thesis
      proof (cases "truthy d")
        case False
        with Resolved errs Some show ?thesis using no_data by simp
      next
        case True
        obtain writes thr where cb: "onSuccess d = (writes, thr)"
          by (cases "onSuccess d")
        with Resolved errs Some True show ?thesis
          using returned threw by (cases thr) simp_all
      qed
    qed
  next
    case (Some es)
    note errs = this
    show ?thesis
    proof (cases es)
      case (Cons e es')
      with Resolved errs show ?thesis using app_errors by simp
    next
      case Nil
      note nil = this
      show ?thesis
      proof (cases "data payload")
        case None
        with Resolved errs nil show ?thesis using no_data by simp
      next
        case (Some d)
        show ?thesis
        proof (cases "truthy d")
          case False
          with Resolved errs nil Some show ?thesis using no_data by simp
        next
          case True
          obtain writes thr where cb: "onSuccess d = (writes, thr)"
            by (cases "onSuccess d")
          with Resolved errs nil Some True show ?thesis
            using returned threw by (cases thr) simp_all
        qed
      qed
    qed
  qed
qed (use pending rejected in simp_all)

section \<open>Application errors\<close>

text \<open>
  Claim C1. When the envelope's \<open>errors\<close> field is present and not empty, the error
  text after \<open>run\<close> is the \<open>message\<close> fields of the error records, in their order,
  joined by a newline, and \<open>onSuccess\<close> is not invoked (so no result slot is written):
  whatever the \<open>data\<close> field is, whatever the callback and the state before.
\<close>

theorem run_errors_take_precedence:
  assumes "errors payload = Some es" and "es \<noteq> []"
  shows "error (apply_events (fst (run (Resolved payload) onSuccess)) s)
           = join [CHR 0x0A] (map message es)
         \<and> filter is_onSuccess (fst (run (Resolved payload) onSuccess)) = []
         \<and> filter is_slot (fst (run (Resolved payload) onSuccess)) = []"
proof -
  from assms obtain e es' where es: "es = e # es'"
    by (cases es) auto
  with assms have "errors payload = Some (e # es')"
    by simp
  from run_errors [OF this, of onSuccess] show ?thesis
    by (simp add: es apply_events_def)
qed

theorem run_errors_take_precedence_witness:
  "error (apply_events (fst (run (Resolved
       \<lparr>data = Some (JObj [(''customer'', JNull)]),
        errors = Some [\<lparr>message = ''not found''\<rparr>, \<lparr>message = ''denied''\<rparr>]\<rparr>)
       onSuccess_customer)) initial_state)
     = ''not found'' @ [CHR 0x0A] @ ''denied''
   \<and> filter is_onSuccess (fst (run (Resolved
       \<lparr>data = Some (JObj [(''customer'', JNull)]),
        errors = Some [\<lparr>message = ''not found''\<rparr>, \<lparr>message = ''denied''\<rparr>]\<rparr>)
       onSuccess_customer)) = []"
  using run_errors_take_precedence
    [of "\<lparr>data = Some (JObj [(''customer'', JNull)]),
         errors = Some [\<lparr>message = ''not found''\<rparr>, \<lparr>message = ''denied''\<rparr>]\<rparr>"
        "[\<lparr>message = ''not found''\<rparr>, \<lparr>message = ''denied''\<rparr>]"
        onSuccess_customer initial_state]
  by simp

section \<open>Success\<close>

text \<open>
  Claim C2, as the specification states it, fails: \<open>run\<close> tests \<open>!payload.data\<close>,
  which is true of a \<open>data\<close> field that is present and falsy. For the envelope
  \<^verbatim>\<open>{"data": null}\<close> the \<open>errors\<close> field is absent and the \<open>data\<close> field is present,
  yet \<open>onSuccess\<close> is not invoked and the error text is the missing-data message.
\<close>

theorem run_null_data_counterexample:
  "errors \<lparr>data = Some JNull, errors = None\<rparr> = None
   \<and> data \<lparr>data = Some JNull, errors = None\<rparr> = Some JNull
   \<and> filter is_onSuccess
        (fst (run (Resolved \<lparr>data = Some JNull, errors = None\<rparr>) onSuccess_customer)) = []
   \<and> error (apply_events
        (fst (run (Resolved \<lparr>data = Some JNull, errors = None\<rparr>) onSuccess_customer))
        initial_state) = ''No data returned by GraphQL API''"
  by (simp add: run_def try_block_def catch_clause_def finally_clause_def apply_events_def)

text \<open>
  Claim C2, amended. When the \<open>errors\<close> field is empty or absent and the \<open>data\<close>
  field is present and truthy, \<open>run\<close> invokes \<open>onSuccess\<close> exactly once, with that
  value; when the callback returns without throwing, the error text after the call is
  empty. For the envelope \<^verbatim>\<open>{"data": {"customer": null}}\<close> of the customer lookup,
  \<open>onSuccess\<close> is invoked with that object and the customer slot becomes \<open>null\<close>,
  whatever it held before.
\<close>

theorem run_success:
  assumes "errors payload = None \<or> errors payload = Some []"
    and "data payload = Some d" and "truthy d"
  shows "filter is_onSuccess (fst (run (Resolved payload) onSuccess)) = [InvokeOnSuccess d]
         \<and> (snd (onSuccess d) = None \<longrightarrow>
              error (apply_events (fst (run (Resolved payload) onSuccess)) s) = [])
         \<and> filter is_onSuccess (fst (run (Resolved
              \<lparr>data = Some (JObj [(''customer'', JNull)]), errors = None\<rparr>) onSuccess_customer))
             = [InvokeOnSuccess (JObj [(''customer'', JNull)])]
         \<and> customerResult (apply_events (fst (run (Resolved
              \<lparr>data = Some (JObj [(''customer'', JNull)]), errors = None\<rparr>) onSuccess_customer)) s)
             = JNull"
proof -
  obtain writes thr where cb: "onSuccess d = (writes, thr)"
    by (cases "onSuccess d")
  have once: "filter is_onSuccess (fst (run (Resolved payload) onSuccess)) = [InvokeOnSuccess d]"
  proof (cases thr)
    case None
    with cb assms
      run_returned [where payload = payload and d = d and onSuccess = onSuccess and writes = writes]
    show ?thesis
      by (simp add: filter_empty_conv image_iff)
  next
    case (Some e)
    with cb assms
      run_threw [where payload = payload and d = d and onSuccess = onSuccess and writes = writes
                   and e = e]
    show ?thesis
      by (simp add: filter_empty_conv image_iff caught_has_no_other_call)
  qed
  have cleared: "error (apply_events (fst (run (Resolved payload) onSuccess)) s) = []"
    if "snd (onSuccess d) = None"
  proof -
    from that cb have "onSuccess d = (writes, None)"
      by simp
    with assms
      run_returned [where payload = payload and d = d and onSuccess = onSuccess and writes = writes]
    show ?thesis
      by (simp add: apply_events_Cons apply_events_append apply_events_Nil slots_keep_error)
  qed
  have scenario: "run (Resolved \<lparr>data = Some (JObj [(''customer'', JNull)]), errors = None\<rparr>)
                    onSuccess_customer
      = ([SetLoading True, SetError [], InvokeTask, InvokeOnSuccess (JObj [(''customer'', JNull)]),
          Slot (SetCustomerResult JNull), SetLoading False], Normal)"
    by (simp add: run_def try_block_def catch_clause_def finally_clause_def onSuccess_customer_def)
  from once cleared scenario show ?thesis
    by (simp add: apply_events_def)
qed

theorem run_success_witness:
  "filter is_onSuccess (fst (run (Resolved
       \<lparr>data = Some (JObj [(''customer'', JObj [(''id'', JStr ''cust-1'')])]), errors = Some []\<rparr>)
       onSuccess_customer))
     = [InvokeOnSuccess (JObj [(''customer'', JObj [(''id'', JStr ''cust-1'')])])]
   \<and> error (apply_events (fst (run (Resolved
       \<lparr>data = Some (JObj [(''customer'', JObj [(''id'', JStr ''cust-1'')])]), errors = Some []\<rparr>)
       onSuccess_customer)) (initial_state\<lparr>error := ''stale''\<rparr>)) = []"
  using run_success
    [of "\<lparr>data = Some (JObj [(''customer'', JObj [(''id'', JStr ''cust-1'')])]), errors = Some []\<rparr>"
        "JObj [(''customer'', JObj [(''id'', JStr ''cust-1'')])]"
        onSuccess_customer "initial_state\<lparr>error := ''stale''\<rparr>"]
  by (simp add: onSuccess_customer_def)

section \<open>Missing data\<close>

text \<open>
  Claim C3. When the \<open>errors\<close> field is empty or absent and the \<open>data\<close> field is
  absent, the error text after \<open>run\<close> is \<open>No data returned by GraphQL API\<close> and
  \<open>onSuccess\<close> is not invoked; the empty envelope \<^verbatim>\<open>{}\<close> is such an envelope.
\<close>

theorem run_missing_data:
  assumes "errors payload = None \<or> errors payload = Some []" and "data payload = None"
  shows "error (apply_events (fst (run (Resolved payload) onSuccess)) s)
           = ''No data returned by GraphQL API''
         \<and> filter is_onSuccess (fst (run (Resolved payload) onSuccess)) = []
         \<and> error (apply_events (fst (run (Resolved \<lparr>data = None, errors = None\<rparr>) onSuccess)) s)
           = ''No data returned by GraphQL API''"
proof -
  from assms have "data payload = None \<or> (\<exists>d. data payload = Some d \<and> \<not> truthy d)"
    by simp
  from run_no_data [OF assms(1) this, of onSuccess]
  have "error (apply_events (fst (run (Resolved payload) onSuccess)) s)
           = ''No data returned by GraphQL API''
        \<and> filter is_onSuccess (fst (run (Resolved payload) onSuccess)) = []"
    by (simp add: apply_events_def)
  moreover have "error (apply_events
        (fst (run (Resolved \<lparr>data = None, errors = None\<rparr>) onSuccess)) s)
           = ''No data returned by GraphQL API''"
    using run_no_data [of "\<lparr>data = None, errors = None\<rparr>" onSuccess]
    by (simp add: apply_events_def)
  ultimately show ?thesis
    by simp
qed

theorem run_missing_data_witness:
  "error (apply_events (fst (run (Resolved \<lparr>data = None, errors = Some []\<rparr>) onSuccess_quote))
      initial_state) = ''No data returned by GraphQL API''
   \<and> filter is_onSuccess (fst (run (Resolved \<lparr>data = None, errors = Some []\<rparr>) onSuccess_quote))
      = []"
  using run_missing_data [of "\<lparr>data = None, errors = Some []\<rparr>" onSuccess_quote initial_state]
  by simp

section \<open>The busy flag\<close>

lemma no_SetLoading_keeps_loading:
  assumes "\<And>b. SetLoading b \<notin> set evs"
  shows "loading (apply_events evs s) = loading s"
  using assms
proof (induction evs arbitrary: s)
  case Nil
  show ?case by (simp add: apply_events_Nil)
next
  case (Cons x xs)
  from Cons.prems have tail: "SetLoading b \<notin> set xs" for b
    by auto
  from Cons.prems have head: "x \<noteq> SetLoading b" for b
    by auto
  have "loading (apply_events xs (apply_event x s)) = loading (apply_event x s)"
    by (rule Cons.IH) (rule tail)
  moreover have "loading (apply_event x s) = loading s"
  proof (cases x)
    case (SetLoading b)
    with head [of b] show ?thesis by simp
  qed (simp_all add: apply_slot_loading)
  ultimately show ?case
    by (simp add: apply_events_Cons)
qed

text \<open>
  When the task settles, the trace of \<open>run\<close> is \<open>setLoading(true)\<close>, calls that are
  not \<open>setLoading\<close>, and \<open>setLoading(false)\<close>.
\<close>

lemma run_settled_shape:
  assumes "task \<noteq> Pending"
  obtains mid where "fst (run task onSuccess) = SetLoading True # mid @ [SetLoading False]"
    and "\<forall>b. SetLoading b \<notin> set mid"
    and "snd (run task onSuccess) \<noteq> Suspended"
proof (cases rule: run_paths [where task = task and onSuccess = onSuccess])
  case pending
  with assms show ?thesis by simp
next
  case (rejected e)
  then show ?thesis
    using that [of "[SetError [], InvokeTask] @ fst (catch_clause (Throw e))"]
    by (cases rule: caught_cases [of e]) (simp_all add: run_rejected)
next
  case (app_errors payload e es)
  then show ?thesis
    using that [of "[SetError [], InvokeTask, SetError (join [CHR 0x0A] (map message (e # es)))]"]
    by (simp add: run_errors)
next
  case (no_data payload)
  then show ?thesis
    using that [of "[SetError [], InvokeTask, SetError ''No data returned by GraphQL API'']"]
    by (simp add: run_no_data)
next
  case (returned payload d writes)
  then have "run task onSuccess =
     ([SetLoading True, SetError [], InvokeTask, InvokeOnSuccess d] @ map Slot writes
        @ [SetLoading False], Normal)"
    using run_returned [where payload = payload and d = d and onSuccess = onSuccess
                          and writes = writes]
    by simp
  then show ?thesis
    using that [of "[SetError [], InvokeTask, InvokeOnSuccess d] @ map Slot writes"]
    by (simp add: image_iff)
next
  case (threw payload d writes e)
  then have "run task onSuccess =
     ([SetLoading True, SetError [], InvokeTask, InvokeOnSuccess d] @ map Slot writes
        @ fst (catch_clause (Throw e)) @ [SetLoading False],
      snd (catch_clause (Throw e)))"
    using run_threw [where payload = payload and d = d and onSuccess = onSuccess
                       and writes = writes and e = e]
    by simp
  then show ?thesis
    using that [of "[SetError [], InvokeTask, InvokeOnSuccess d] @ map Slot writes
                      @ fst (catch_clause (Throw e))"]
    by (cases rule: caught_cases [of e]) (simp_all add: image_iff)
qed

text \<open>
  Claim C4. On every path on which the task settles (fulfilled with any envelope or
  rejected, and whatever the callback does), \<open>run\<close> finishes (it returns, or an
  exception thrown inside the \<open>catch\<close> clause leaves it after \<open>finally\<close>); its
  first call is \<open>setLoading(true)\<close> and its last call is \<open>setLoading(false)\<close>, which
  it makes exactly once; the flag is \<open>true\<close> after every proper, non-empty prefix of
  the calls and \<open>false\<close> after all of them.
\<close>

theorem run_busy_flag:
  assumes "task \<noteq> Pending"
  shows "snd (run task onSuccess) \<noteq> Suspended
         \<and> (\<exists>rest. fst (run task onSuccess) = SetLoading True # rest)
         \<and> (\<exists>front. fst (run task onSuccess) = front @ [SetLoading False])
         \<and> length (filter (\<lambda>e. e = SetLoading False) (fst (run task onSuccess))) = 1
         \<and> (\<forall>n. 0 < n \<and> n < length (fst (run task onSuccess)) \<longrightarrow>
               loading (apply_events (take n (fst (run task onSuccess))) s))
         \<and> \<not> loading (apply_events (fst (run task onSuccess)) s)"
proof -
  from assms obtain mid where shape: "fst (run task onSuccess) = SetLoading True # mid @ [SetLoading False]"
    and mid: "\<forall>b. SetLoading b \<notin> set mid"
    and ends: "snd (run task onSuccess) \<noteq> Suspended"
    by (rule run_settled_shape)
  have first: "\<exists>rest. fst (run task onSuccess) = SetLoading True # rest"
    using shape by simp
  have last: "\<exists>front. fst (run task onSuccess) = front @ [SetLoading False]"
    using shape by (intro exI [of _ "SetLoading True # mid"]) simp
  from mid have "filter (\<lambda>e. e = SetLoading False) mid = []"
    by (auto simp add: filter_empty_conv)
  then have once: "length (filter (\<lambda>e. e = SetLoading False) (fst (run task onSuccess))) = 1"
    using shape by simp
  have between: "loading (apply_events (take n (fst (run task onSuccess))) s)"
    if "0 < n \<and> n < length (fst (run task onSuccess))" for n
  proof -
    from that obtain k where n: "n = Suc k" and k: "k \<le> length mid"
      using shape by (cases n) simp_all
    then have "take n (fst (run task onSuccess)) = SetLoading True # take k mid"
      using shape by simp
    moreover from mid have "SetLoading b \<notin> set (take k mid)" for b
      by (meson in_set_takeD)
    then have "loading (apply_events (take k mid) (apply_event (SetLoading True) s))
               = loading (apply_event (SetLoading True) s)"
      by (rule no_SetLoading_keeps_loading)
    ultimately show ?thesis
      by (simp add: apply_events_Cons)
  qed
  have after: "\<not> loading (apply_events (fst (run task onSuccess)) s)"
    using shape by (simp add: apply_events_Cons apply_events_append apply_events_Nil)
  from ends first last once between after show ?thesis
    by blast
qed

theorem run_busy_flag_witness:
  "Rejected (Error_instance ''network down'') \<noteq> (Pending :: GraphQLResponse settled)
   \<and> length (filter (\<lambda>e. e = SetLoading False)
        (fst (run (Rejected (Error_instance ''network down'')) onSuccess_catalog))) = 1
   \<and> \<not> loading (apply_events
        (fst (run (Rejected (Error_instance ''network down'')) onSuccess_catalog))
        (initial_state\<lparr>loading := True\<rparr>))"
  using run_busy_flag [of "Rejected (Error_instance ''network down'')" onSuccess_catalog
                          "initial_state\<lparr>loading := True\<rparr>"]
  by simp

section \<open>Transport errors\<close>

lemma call_outcome_Success:
  "call_outcome task = Some Success \<longleftrightarrow>
     (\<exists>payload d. task = Resolved payload
        \<and> (errors payload = None \<or> errors payload = Some [])
        \<and> data payload = Some d \<and> truthy d)"
  by (auto simp add: call_outcome_def split: settled.splits option.splits list.splits)

text \<open>
  The outcome read off an invocation is the one the result of the task determines.
\<close>

lemma observed_outcome_run: "observed_outcome (run task onSuccess) = call_outcome task"
proof (cases rule: run_paths [where task = task and onSuccess = onSuccess])
  case pending
  then show ?thesis
    by (simp add: run_pending observed_outcome_def call_outcome_def)
next
  case (rejected e)
  then show ?thesis
    by (cases rule: caught_cases [of e])
       (simp_all add: run_rejected observed_outcome_def call_outcome_def)
next
  case (app_errors payload e es)
  then show ?thesis
    by (simp add: run_errors observed_outcome_def call_outcome_def)
next
  case (no_data payload)
  then have "call_outcome task = Some MissingData"
    by (auto simp add: call_outcome_def)
  with no_data show ?thesis
    by (simp add: run_no_data observed_outcome_def)
next
  case (returned payload d writes)
  then have "call_outcome task = Some Success"
    using call_outcome_Success [of task] by blast
  with returned show ?thesis
    using run_returned [where payload = payload and d = d and onSuccess = onSuccess
                          and writes = writes]
    by (simp add: observed_outcome_def)
next
  case (threw payload d writes e)
  then have "call_outcome task = Some Success"
    using call_outcome_Success [of task] by blast
  with threw show ?thesis
    using run_threw [where payload = payload and d = d and onSuccess = onSuccess
                       and writes = writes and e = e]
    by (simp add: observed_outcome_def)
qed

text \<open>
  Claim C5, as the specification states it, fails: line 98 evaluates \<open>String(e)\<close>
  inside the \<open>catch\<close> clause, and for a thrown value that is not an \<open>Error\<close> and has
  no primitive conversion (\<^verbatim>\<open>Object.create(null)\<close>) the conversion throws a
  \<open>TypeError\<close>. For a task rejected with such a value \<open>run\<close> makes no call of
  \<open>setError\<close> after the task: the error text stays empty, and the \<open>TypeError\<close> leaves
  \<open>run\<close>.
\<close>

theorem run_unconvertible_rejection_counterexample:
  "fst (run (Rejected (Non_error None
           (Inl (Error_instance ''Cannot convert object to primitive value''))))
        onSuccess_customer)
     = [SetLoading True, SetError [], InvokeTask, SetLoading False]
   \<and> snd (run (Rejected (Non_error None
           (Inl (Error_instance ''Cannot convert object to primitive value''))))
        onSuccess_customer)
     = Throw (Error_instance ''Cannot convert object to primitive value'')
   \<and> error (apply_events
        (fst (run (Rejected (Non_error None
           (Inl (Error_instance ''Cannot convert object to primitive value''))))
        onSuccess_customer)) (initial_state\<lparr>error := ''stale''\<rparr>)) = []"
  by (simp add: run_def try_block_def catch_clause_def catch_message_def finally_clause_def
        apply_events_def)

text \<open>
  Claim C5, amended. When the task is rejected (or throws) with a value that is an
  instance of \<open>Error\<close>, the error text after \<open>run\<close> is its \<open>message\<close>; with any
  other value for which \<open>String(e)\<close> returns, the error text is that string, also when
  the value has a \<open>message\<close> property of its own; in both cases \<open>run\<close> completes
  normally. Whatever the thrown value, the outcome is a transport error, \<open>onSuccess\<close>
  is not invoked and the flag ends \<open>false\<close>. A thrown \<open>Error("network down")\<close> leaves
  the error text \<open>network down\<close>.
\<close>

theorem run_transport_error:
  "error (apply_events (fst (run (Rejected (Error_instance m)) onSuccess)) s) = m
   \<and> snd (run (Rejected (Error_instance m)) onSuccess) = Normal
   \<and> error (apply_events (fst (run (Rejected (Non_error mp (Inr str))) onSuccess)) s) = str
   \<and> snd (run (Rejected (Non_error mp (Inr str))) onSuccess) = Normal
   \<and> observed_outcome (run (Rejected e) onSuccess) = Some TransportError
   \<and> filter is_onSuccess (fst (run (Rejected e) onSuccess)) = []
   \<and> \<not> loading (apply_events (fst (run (Rejected e) onSuccess)) s)
   \<and> error (apply_events (fst (run (Rejected (Error_instance ''network down'')) onSuccess)) s)
     = ''network down''
   \<and> \<not> loading (apply_events
        (fst (run (Rejected (Error_instance ''network down'')) onSuccess)) s)"
proof -
  have reported: "error (apply_events (fst (run (Rejected e') onSuccess)) s) = msg
                  \<and> snd (run (Rejected e') onSuccess) = Normal"
    if "catch_message e' = Inr msg" for e' msg
    using that
    by (cases rule: caught_cases [of e']) (simp_all add: run_rejected apply_events_def)
  have kind: "observed_outcome (run (Rejected e) onSuccess) = Some TransportError"
    by (simp add: observed_outcome_run call_outcome_def)
  have quiet: "filter is_onSuccess (fst (run (Rejected e) onSuccess)) = []"
    by (simp add: run_rejected caught_has_no_other_call)
  have idle: "\<not> loading (apply_events (fst (run (Rejected e'') onSuccess)) s)" for e''
    by (simp add: run_rejected apply_events_append apply_events_Cons apply_events_Nil)
  from reported [of "Error_instance m" m] reported [of "Non_error mp (Inr str)" str]
    reported [of "Error_instance ''network down''" "''network down''"]
    kind quiet idle [of e] idle [of "Error_instance ''network down''"]
  show ?thesis
    by (simp add: catch_message_def)
qed

theorem run_transport_error_witness:
  "error (apply_events
      (fst (run (Rejected (Non_error (Some ''boom'') (Inr ''[object Object]'')))
             onSuccess_customer))
      (initial_state\<lparr>loading := True\<rparr>)) = ''[object Object]''
   \<and> observed_outcome
        (run (Rejected (Non_error (Some ''boom'') (Inr ''[object Object]''))) onSuccess_customer)
      = Some TransportError
   \<and> \<not> loading (apply_events
        (fst (run (Rejected (Non_error (Some ''boom'') (Inr ''[object Object]'')))
               onSuccess_customer))
        (initial_state\<lparr>loading := True\<rparr>))"
  using run_transport_error
    [where mp = "Some ''boom''" and str = "''[object Object]''"
       and e = "Non_error (Some ''boom'') (Inr ''[object Object]'')"
       and onSuccess = onSuccess_customer and s = "initial_state\<lparr>loading := True\<rparr>"]
  by simp

section \<open>The order of the first calls\<close>

text \<open>
  Claim C7. In every invocation the first three calls are \<open>setLoading(true)\<close>,
  \<open>setError('')\<close> and the invocation of the task, in this order, and the task is
  invoked once; so when the task is invoked the flag is \<open>true\<close> and the error text is
  empty, whatever they were before.
\<close>

theorem run_prologue:
  "(\<exists>rest. fst (run task onSuccess) = SetLoading True # SetError [] # InvokeTask # rest
            \<and> InvokeTask \<notin> set rest)
   \<and> loading (apply_events [SetLoading True, SetError []] s)
   \<and> error (apply_events [SetLoading True, SetError []] s) = []"
proof -
  have "\<exists>rest. fst (run task onSuccess) = SetLoading True # SetError [] # InvokeTask # rest
            \<and> InvokeTask \<notin> set rest"
  proof (cases rule: run_paths [where task = task and onSuccess = onSuccess])
    case (returned payload d writes)
    then show ?thesis
      using run_returned [where payload = payload and d = d and onSuccess = onSuccess
                            and writes = writes]
      by (auto simp add: image_iff)
  next
    case (threw payload d writes e)
    then show ?thesis
      using run_threw [where payload = payload and d = d and onSuccess = onSuccess
                         and writes = writes and e = e]
      by (auto simp add: image_iff caught_has_no_other_call)
  qed (simp_all add: run_pending run_rejected run_errors run_no_data caught_has_no_other_call)
  then show ?thesis
    by (simp add: apply_events_def)
qed

theorem run_prologue_witness:
  "fst (run (Resolved \<lparr>data = None, errors = None\<rparr>) onSuccess_placeOrder)
     = [SetLoading True, SetError [], InvokeTask,
        SetError ''No data returned by GraphQL API'', SetLoading False]
   \<and> error (apply_events [SetLoading True, SetError []] (initial_state\<lparr>error := ''stale''\<rparr>))
     = []"
  using run_prologue [of "Resolved \<lparr>data = None, errors = None\<rparr>" onSuccess_placeOrder
                         "initial_state\<lparr>error := ''stale''\<rparr>"]
  by (simp add: run_def try_block_def catch_clause_def finally_clause_def)

section \<open>A callback that throws\<close>

text \<open>
  Claim C10, as stated, fails: \<open>onSuccess\<close> is called inside the \<open>try\<close> block, so a
  value it throws reaches line 98, and when the value is not an \<open>Error\<close> and
  \<open>String(e)\<close> throws for it, the \<open>catch\<close> clause throws in its turn. For the envelope
  \<^verbatim>\<open>{"data": {"customer": null}}\<close> and a callback that throws \<^verbatim>\<open>Object.create(null)\<close>,
  an exception leaves \<open>run\<close> and the error text is not set.
\<close>

theorem run_callback_throw_escapes_counterexample:
  "truthy (JObj [(''customer'', JNull)])
   \<and> snd (callback_throwing
        (Non_error None (Inl (Error_instance ''Cannot convert object to primitive value'')))
        (JObj [(''customer'', JNull)]))
     = Some (Non_error None (Inl (Error_instance ''Cannot convert object to primitive value'')))
   \<and> snd (run (Resolved \<lparr>data = Some (JObj [(''customer'', JNull)]), errors = None\<rparr>)
        (callback_throwing
          (Non_error None (Inl (Error_instance ''Cannot convert object to primitive value'')))))
     = Throw (Error_instance ''Cannot convert object to primitive value'')
   \<and> error (apply_events
        (fst (run (Resolved \<lparr>data = Some (JObj [(''customer'', JNull)]), errors = None\<rparr>)
          (callback_throwing
            (Non_error None (Inl (Error_instance ''Cannot convert object to primitive value''))))))
        (initial_state\<lparr>error := ''stale''\<rparr>)) = []"
  by (simp add: run_def try_block_def catch_clause_def catch_message_def finally_clause_def
        apply_events_def callback_throwing_def)

text \<open>
  Claim C10, amended. When \<open>onSuccess\<close> throws on the success path a value that is an
  instance of \<open>Error\<close>, or another value for which \<open>String(e)\<close> returns, \<open>run\<close> does
  not throw: it completes normally and the error text is the \<open>message\<close> of the
  \<open>Error\<close>, or the string form of the other value. Whatever the thrown value, the
  error text and the way \<open>run\<close> ends are those of a task rejected with the same
  value, and the flag ends \<open>false\<close>.
\<close>

theorem run_callback_throws:
  assumes "errors payload = None \<or> errors payload = Some []"
    and "data payload = Some d" and "truthy d" and "onSuccess d = (writes, Some e)"
  shows "(e = Error_instance m \<longrightarrow>
            snd (run (Resolved payload) onSuccess) = Normal
            \<and> error (apply_events (fst (run (Resolved payload) onSuccess)) s) = m)
         \<and> (e = Non_error mp (Inr str) \<longrightarrow>
            snd (run (Resolved payload) onSuccess) = Normal
            \<and> error (apply_events (fst (run (Resolved payload) onSuccess)) s) = str)
         \<and> error (apply_events (fst (run (Resolved payload) onSuccess)) s)
             = error (apply_events (fst (run (Rejected e) onSuccess)) s)
         \<and> snd (run (Resolved payload) onSuccess) = snd (run (Rejected e) onSuccess)
         \<and> \<not> loading (apply_events (fst (run (Resolved payload) onSuccess)) s)"
proof -
  have trace: "run (Resolved payload) onSuccess =
     ([SetLoading True, SetError [], InvokeTask, InvokeOnSuccess d] @ map Slot writes
        @ fst (catch_clause (Throw e)) @ [SetLoading False],
      snd (catch_clause (Throw e)))"
    using assms
      run_threw [where payload = payload and d = d and onSuccess = onSuccess
                   and writes = writes and e = e]
    by simp
  have idle: "\<not> loading (apply_events (fst (run (Resolved payload) onSuccess)) s)"
    by (simp add: trace apply_events_append apply_events_Cons apply_events_Nil)
  have same_end: "snd (run (Resolved payload) onSuccess) = snd (run (Rejected e) onSuccess)"
    by (simp add: trace run_rejected)
  have same_text: "error (apply_events (fst (run (Resolved payload) onSuccess)) s)
                   = error (apply_events (fst (run (Rejected e) onSuccess)) s)"
    by (cases rule: caught_cases [of e])
       (simp_all add: trace run_rejected apply_events_append apply_events_Cons apply_events_Nil
          slots_keep_error)
  have reported: "snd (run (Resolved payload) onSuccess) = Normal
                  \<and> error (apply_events (fst (run (Resolved payload) onSuccess)) s) = msg"
    if "catch_message e = Inr msg" for msg
    using that
    by (cases rule: caught_cases [of e])
       (simp_all add: trace apply_events_append apply_events_Cons apply_events_Nil)
  from reported [of m] reported [of str] same_text same_end idle show ?thesis
    by (auto simp add: catch_message_def)
qed

theorem run_callback_throws_witness:
  "snd (run (Resolved \<lparr>data = Some (JBool True), errors = None\<rparr>)
          (callback_throwing (Error_instance ''boom''))) = Normal
   \<and> error (apply_events (fst (run (Resolved \<lparr>data = Some (JBool True), errors = None\<rparr>)
          (callback_throwing (Error_instance ''boom'')))) initial_state) = ''boom''
   \<and> \<not> loading (apply_events (fst (run (Resolved \<lparr>data = Some (JBool True), errors = None\<rparr>)
          (callback_throwing (Error_instance ''boom'')))) initial_state)"
  using run_callback_throws
    [where payload = "\<lparr>data = Some (JBool True), errors = None\<rparr>" and d = "JBool True"
       and onSuccess = "callback_throwing (Error_instance ''boom'')" and writes = "[]"
       and e = "Error_instance ''boom''" and m = "''boom''" and s = initial_state]
  by (simp add: callback_throwing_def)

section \<open>Result slots\<close>

lemma slot_of_SetLoading: "slot_of k (s\<lparr>loading := b\<rparr>) = slot_of k s"
  by (cases k) simp_all

lemma slot_of_SetError: "slot_of k (s\<lparr>error := m\<rparr>) = slot_of k s"
  by (cases k) simp_all

lemma caught_keeps_slot:
  "slot_of k (apply_events (fst (catch_clause (Throw e))) s) = slot_of k s"
  by (cases rule: caught_cases [of e]) (simp_all add: apply_events_def slot_of_SetError)

lemma get_prop_cases:
  obtains (throws) e where "get_prop d name = Inl e" | (yields) v where "get_prop d name = Inr v"
  by (cases "get_prop d name") auto

text \<open>The callback of one operation kind leaves the slot of every other kind as it was.\<close>

lemma other_slot_unchanged:
  assumes "k' \<noteq> k"
  shows "slot_of k' (apply_events (map Slot (fst (onSuccess_of k d))) s) = slot_of k' s"
proof (cases k)
  case Customer
  with assms show ?thesis
    by (cases rule: get_prop_cases [of d "''customer''"]; cases k')
       (simp_all add: onSuccess_customer_def apply_events_def)
next
  case Catalog
  with assms show ?thesis
    by (cases rule: get_prop_cases [of d "''catalogItems''"]; cases k')
       (simp_all add: onSuccess_catalog_def apply_events_def)
next
  case Quote
  with assms show ?thesis
    by (cases rule: get_prop_cases [of d "''quotePrice''"]; cases k')
       (simp_all add: onSuccess_quote_def apply_events_def)
next
  case PlaceOrder
  with assms show ?thesis
    by (cases rule: get_prop_cases [of d "''placeOrder''"]; cases k')
       (simp_all add: onSuccess_placeOrder_def apply_events_def)
next
  case ScheduleReturn
  with assms show ?thesis
    by (cases rule: get_prop_cases [of d "''scheduleReturn''"]; cases k')
       (simp_all add: onSuccess_scheduleReturn_def apply_events_def)
qed

text \<open>The calls of \<open>run\<close> outside the callback write no slot.\<close>

lemma unsuccessful_run_writes_no_slot:
  assumes "call_outcome task \<noteq> Some Success"
  shows "filter is_slot (fst (run task onSuccess)) = []"
    and "slot_of k (apply_events (fst (run task onSuccess)) s) = slot_of k s"
proof -
  have "filter is_slot (fst (run task onSuccess)) = []
        \<and> slot_of k (apply_events (fst (run task onSuccess)) s) = slot_of k s"
  proof (cases rule: run_paths [where task = task and onSuccess = onSuccess])
    case pending
    then show ?thesis
      by (simp add: run_pending apply_events_def slot_of_SetLoading slot_of_SetError)
  next
    case (rejected e)
    then show ?thesis
      by (cases rule: caught_cases [of e])
         (simp_all add: run_rejected apply_events_def slot_of_SetLoading slot_of_SetError)
  next
    case (app_errors payload e es)
    then show ?thesis
      by (simp add: run_errors apply_events_def slot_of_SetLoading slot_of_SetError)
  next
    case (no_data payload)
    then show ?thesis
      by (simp add: run_no_data apply_events_def slot_of_SetLoading slot_of_SetError)
  next
    case (returned payload d writes)
    with assms show ?thesis
      using call_outcome_Success [of task] by blast
  next
    case (threw payload d writes e)
    with assms show ?thesis
      using call_outcome_Success [of task] by blast
  qed
  then show "filter is_slot (fst (run task onSuccess)) = []"
    and "slot_of k (apply_events (fst (run task onSuccess)) s) = slot_of k s"
    by simp_all
qed

lemma slot_written_by_callback:
  assumes "Slot w \<in> set (fst (run task onSuccess))"
  shows "\<exists>d. InvokeOnSuccess d \<in> set (fst (run task onSuccess)) \<and> w \<in> set (fst (onSuccess d))"
proof (cases rule: run_paths [where task = task and onSuccess = onSuccess])
  case (returned payload d writes)
  then have "run task onSuccess =
     ([SetLoading True, SetError [], InvokeTask, InvokeOnSuccess d] @ map Slot writes
        @ [SetLoading False], Normal)"
    using run_returned [where payload = payload and d = d and onSuccess = onSuccess
                          and writes = writes]
    by simp
  with assms returned show ?thesis
    by (intro exI [of _ d]) auto
next
  case (threw payload d writes e)
  then have "run task onSuccess =
     ([SetLoading True, SetError [], InvokeTask, InvokeOnSuccess d] @ map Slot writes
        @ fst (catch_clause (Throw e)) @ [SetLoading False],
      snd (catch_clause (Throw e)))"
    using run_threw [where payload = payload and d = d and onSuccess = onSuccess
                       and writes = writes and e = e]
    by simp
  with assms threw show ?thesis
    by (intro exI [of _ d]) (auto simp add: caught_has_no_other_call)
qed (use assms in \<open>simp_all add: run_pending run_rejected run_errors run_no_data
       caught_has_no_other_call\<close>)

lemma run_keeps_other_slots:
  assumes "k' \<noteq> k"
  shows "slot_of k' (apply_events (fst (run task (onSuccess_of k))) s) = slot_of k' s"
proof (cases "call_outcome task = Some Success")
  case False
  then show ?thesis
    by (rule unsuccessful_run_writes_no_slot)
next
  case True
  then obtain payload d where task: "task = Resolved payload"
    and errs: "errors payload = None \<or> errors payload = Some []"
    and d: "data payload = Some d" "truthy d"
    using call_outcome_Success [of task] by blast
  obtain writes thr where cb: "onSuccess_of k d = (writes, thr)"
    by (cases "onSuccess_of k d")
  let ?s1 = "apply_events [SetLoading True, SetError [], InvokeTask, InvokeOnSuccess d] s"
  have s1: "slot_of k' ?s1 = slot_of k' s"
    by (simp add: apply_events_def slot_of_SetLoading slot_of_SetError)
  from assms have mid: "slot_of k' (apply_events (map Slot writes) ?s1) = slot_of k' ?s1"
    using other_slot_unchanged [of k' k d ?s1] cb by simp
  show ?thesis
  proof (cases thr)
    case None
    with cb errs d have "run (Resolved payload) (onSuccess_of k) =
       ([SetLoading True, SetError [], InvokeTask, InvokeOnSuccess d] @ map Slot writes
          @ [SetLoading False], Normal)"
      using run_returned [where payload = payload and d = d and onSuccess = "onSuccess_of k"
                            and writes = writes]
      by simp
    then have "apply_events (fst (run task (onSuccess_of k))) s
               = apply_events [SetLoading False] (apply_events (map Slot writes) ?s1)"
      by (simp only: task fst_conv apply_events_append)
    with mid s1 show ?thesis
      by (simp add: apply_events_Cons apply_events_Nil slot_of_SetLoading)
  next
    case (Some e)
    with cb errs d have "run (Resolved payload) (onSuccess_of k) =
       ([SetLoading True, SetError [], InvokeTask, InvokeOnSuccess d] @ map Slot writes
          @ fst (catch_clause (Throw e)) @ [SetLoading False],
        snd (catch_clause (Throw e)))"
      using run_threw [where payload = payload and d = d and onSuccess = "onSuccess_of k"
                         and writes = writes and e = e]
      by simp
    then have "apply_events (fst (run task (onSuccess_of k))) s
               = apply_events [SetLoading False]
                   (apply_events (fst (catch_clause (Throw e)))
                      (apply_events (map Slot writes) ?s1))"
      by (simp only: task fst_conv apply_events_append)
    with mid s1 show ?thesis
      by (simp add: apply_events_Cons apply_events_Nil slot_of_SetLoading caught_keeps_slot)
  qed
qed

text \<open>
  Claim C6. An invocation whose outcome is not \<open>Success\<close> (application error, missing
  data, transport error) makes no slot write and leaves all five result slots as they
  were. Every slot write in a trace of \<open>run\<close> is one the callback made while \<open>run\<close>
  invoked it. An invocation for one operation kind, whatever its outcome, leaves the
  slot of every other kind as it was.
\<close>

theorem run_result_slots:
  "(call_outcome task \<noteq> Some Success \<longrightarrow>
      filter is_slot (fst (run task onSuccess)) = []
      \<and> (\<forall>k. slot_of k (apply_events (fst (run task onSuccess)) s) = slot_of k s))
   \<and> (\<forall>w. Slot w \<in> set (fst (run task onSuccess)) \<longrightarrow>
         (\<exists>d. InvokeOnSuccess d \<in> set (fst (run task onSuccess)) \<and> w \<in> set (fst (onSuccess d))))
   \<and> (k' \<noteq> k \<longrightarrow>
         slot_of k' (apply_events (fst (run task (onSuccess_of k))) s) = slot_of k' s)"
proof -
  have "filter is_slot (fst (run task onSuccess)) = []
        \<and> (\<forall>k. slot_of k (apply_events (fst (run task onSuccess)) s) = slot_of k s)"
    if "call_outcome task \<noteq> Some Success"
    using that unsuccessful_run_writes_no_slot [where task = task and onSuccess = onSuccess]
    by simp
  moreover have "\<exists>d. InvokeOnSuccess d \<in> set (fst (run task onSuccess))
                    \<and> w \<in> set (fst (onSuccess d))"
    if "Slot w \<in> set (fst (run task onSuccess))" for w
    using that by (rule slot_written_by_callback)
  moreover have "slot_of k' (apply_events (fst (run task (onSuccess_of k))) s) = slot_of k' s"
    if "k' \<noteq> k"
    using that by (rule run_keeps_other_slots)
  ultimately show ?thesis
    by blast
qed

theorem run_result_slots_witness:
  "call_outcome (Resolved \<lparr>data = None, errors = Some [\<lparr>message = ''not found''\<rparr>]\<rparr>)
     \<noteq> Some Success
   \<and> slot_of Quote (apply_events
        (fst (run (Resolved \<lparr>data = None, errors = Some [\<lparr>message = ''not found''\<rparr>]\<rparr>)
               onSuccess_catalog))
        (initial_state\<lparr>quoteResult := JStr ''kept''\<rparr>)) = JStr ''kept''
   \<and> Quote \<noteq> Catalog
   \<and> slot_of Quote (apply_events
        (fst (run (Resolved \<lparr>data = None, errors = Some [\<lparr>message = ''not found''\<rparr>]\<rparr>)
               (onSuccess_of Catalog)))
        (initial_state\<lparr>quoteResult := JStr ''kept''\<rparr>)) = JStr ''kept''"
  using run_result_slots
    [where task = "Resolved \<lparr>data = None, errors = Some [\<lparr>message = ''not found''\<rparr>]\<rparr>"
       and onSuccess = onSuccess_catalog
       and s = "initial_state\<lparr>quoteResult := JStr ''kept''\<rparr>"
       and k' = Quote and k = Catalog]
  by (simp add: call_outcome_def)

section \<open>The transport call\<close>

text \<open>
  Claim C8. For every operation text and variables, \<open>gqlRequest\<close> issues exactly one
  request: a \<open>POST\<close> to \<open>/graphql\<close> with the header \<open>content-type: application/json\<close>
  and the body \<open>JSON.stringify({query, variables})\<close>. When \<open>fetch\<close> yields a response,
  the result is what \<open>response.json()\<close> yields, unchanged, whatever the decoded body
  is; a rejection of \<open>fetch\<close> is the result as well.
\<close>

theorem gqlRequest_transport:
  "fst (gqlRequest stringify fetch query variables)
     = [\<lparr>url = ''/graphql'', http_method = ''POST'',
         headers = [(''content-type'', ''application/json'')],
         body = stringify (JObj [(''query'', JStr query), (''variables'', JObj variables)])\<rparr>]
   \<and> (\<forall>resp. fetch \<lparr>url = ''/graphql'', http_method = ''POST'',
                    headers = [(''content-type'', ''application/json'')],
                    body = stringify (JObj [(''query'', JStr query),
                                            (''variables'', JObj variables)])\<rparr> = Resolved resp
         \<longrightarrow> snd (gqlRequest stringify fetch query variables) = json resp)
   \<and> (\<forall>e. fetch \<lparr>url = ''/graphql'', http_method = ''POST'',
                 headers = [(''content-type'', ''application/json'')],
                 body = stringify (JObj [(''query'', JStr query),
                                         (''variables'', JObj variables)])\<rparr> = Rejected e
         \<longrightarrow> snd (gqlRequest stringify fetch query variables) = Rejected e)"
  by (simp add: gqlRequest_def Let_def)

theorem gqlRequest_transport_witness:
  "map url (fst (gqlRequest (\<lambda>v. ''{}'')
       (\<lambda>r. Resolved \<lparr>json = Resolved (JObj [(''data'', JNull)])\<rparr>)
       ''query { x }'' [(''id'', JStr ''cust-1'')])) = [''/graphql'']
   \<and> snd (gqlRequest (\<lambda>v. ''{}'')
       (\<lambda>r. Resolved \<lparr>json = Resolved (JObj [(''data'', JNull)])\<rparr>)
       ''query { x }'' [(''id'', JStr ''cust-1'')]) = Resolved (JObj [(''data'', JNull)])"
  using gqlRequest_transport
    [of "\<lambda>v. ''{}''" "\<lambda>r. Resolved \<lparr>json = Resolved (JObj [(''data'', JNull)])\<rparr>"
        "''query { x }''" "[(''id'', JStr ''cust-1'')]"]
  by simp

section \<open>Two invocations in sequence\<close>

text \<open>
  Claim C9. Against a deterministic server (a function of the request) the same
  operation text and variables give the task the same result each time. The outcome
  kind of an invocation is read off what \<open>run\<close> did (whether it invoked \<open>onSuccess\<close>,
  and by which statement it ended). A second invocation of \<open>run\<close>, started from the
  state the first one left, has the same outcome kind as the first; this kind is the one
  the server's response determines, so nothing the first invocation wrote enters it;
  and the second invocation leaves the state the first one left.
\<close>

theorem run_twice:
  "snd (execute (snd (gqlRequest stringify server query variables)) onSuccess
          (fst (execute (snd (gqlRequest stringify server query variables)) onSuccess s)))
     = snd (execute (snd (gqlRequest stringify server query variables)) onSuccess s)
   \<and> snd (execute (snd (gqlRequest stringify server query variables)) onSuccess s)
     = call_outcome (snd (gqlRequest stringify server query variables))
   \<and> fst (execute (snd (gqlRequest stringify server query variables)) onSuccess
          (fst (execute (snd (gqlRequest stringify server query variables)) onSuccess s)))
     = fst (execute (snd (gqlRequest stringify server query variables)) onSuccess s)"
  by (simp add: execute_def observed_outcome_run apply_events_idem)

theorem run_twice_witness:
  "snd (execute (snd (gqlRequest (\<lambda>v. ''{}'')
          (\<lambda>r. Resolved \<lparr>json = Resolved \<lparr>data = Some (JObj [(''customer'', JNull)]),
                                            errors = None\<rparr>\<rparr>)
          ''query { x }'' [])) onSuccess_customer
        (fst (execute (snd (gqlRequest (\<lambda>v. ''{}'')
          (\<lambda>r. Resolved \<lparr>json = Resolved \<lparr>data = Some (JObj [(''customer'', JNull)]),
                                            errors = None\<rparr>\<rparr>)
          ''query { x }'' [])) onSuccess_customer initial_state)))
     = Some Success
   \<and> customerResult (fst (execute (snd (gqlRequest (\<lambda>v. ''{}'')
          (\<lambda>r. Resolved \<lparr>json = Resolved \<lparr>data = Some (JObj [(''customer'', JNull)]),
                                            errors = None\<rparr>\<rparr>)
          ''query { x }'' [])) onSuccess_customer
        (fst (execute (snd (gqlRequest (\<lambda>v. ''{}'')
          (\<lambda>r. Resolved \<lparr>json = Resolved \<lparr>data = Some (JObj [(''customer'', JNull)]),
                                            errors = None\<rparr>\<rparr>)
          ''query { x }'' [])) onSuccess_customer initial_state)))) = JNull"
  using run_twice
    [of "\<lambda>v. ''{}''"
        "\<lambda>r. Resolved \<lparr>json = Resolved \<lparr>data = Some (JObj [(''customer'', JNull)]),
                                         errors = None\<rparr>\<rparr>"
        "''query { x }''" "[]" onSuccess_customer initial_state]
  by (simp add: execute_def observed_outcome_def gqlRequest_def run_def try_block_def
        catch_clause_def finally_clause_def onSuccess_customer_def apply_events_def)

end
